theory Spec2Isabelle
  imports Main "HOL-Library.List_Lexorder" "HOL-Library.Char_ord"
begin

section \<open>Data model of \<^verbatim>\<open>tsql.py\<close>\<close>

text \<open>
  A Python \<^verbatim>\<open>str\<close> is a \<^typ>\<open>string\<close>, a list of characters, and a character
  is a code point below 256: \<open>of_char c\<close> is the code point of \<open>c\<close>. Text with a
  code point of 256 or more has no counterpart in this type. With \<^verbatim>\<open>List_Lexorder\<close>
  and \<^verbatim>\<open>Char_ord\<close> the order \<open><\<close> on \<^typ>\<open>string\<close> is the lexicographic order
  by code point, which is how Python compares two \<^verbatim>\<open>str\<close> values. The character
  classes below are the ones that Python's \<^verbatim>\<open>re\<close> (on a \<^verbatim>\<open>str\<close> pattern, so with
  its Unicode tables) and \<^verbatim>\<open>str.strip\<close> use on these code points.

  A row is a \<^verbatim>\<open>dict\<close> that the code only reads and writes by key: a map. The store
  \<^verbatim>\<open>self.tables\<close> is a \<^verbatim>\<open>dict[str, list[dict]]\<close>: a map from table names to lists
  of rows. The dictionary \<^verbatim>\<open>assignments\<close> of an UPDATE is iterated with
  \<^verbatim>\<open>.items()\<close>, so it is kept as the list of its items, in insertion order.
\<close>

type_synonym row = "string \<rightharpoonup> string"
type_synonym tables = "string \<rightharpoonup> row list"

text \<open>
  Every \<^verbatim>\<open>raise\<close> of the source is a constructor. All but \<open>KeyError\<close> are a Python
  \<^verbatim>\<open>ValueError\<close>, told apart by their message:
  \<^item> \<open>UnsupportedWhere c\<close>: "Unsupported WHERE condition: c";
  \<^item> \<open>UnsupportedOperator p\<close>: "Unsupported operator in WHERE condition: p";
  \<^item> \<open>TableNotExist t\<close>: "Table 't' does not exist";
  \<^item> \<open>TableExists t\<close>: "Table 't' already exists";
  \<^item> \<open>ZipStrict\<close>: the \<^verbatim>\<open>ValueError\<close> of \<^verbatim>\<open>zip(..., strict=True)\<close> on lists of
    different lengths;
  \<^item> \<open>KeyError c\<close>: the \<^verbatim>\<open>KeyError\<close> of \<^verbatim>\<open>row[c]\<close> on a row without the key \<open>c\<close>.
\<close>

datatype error =
    UnsupportedWhere string
  | UnsupportedOperator string
  | TableNotExist string
  | TableExists string
  | ZipStrict
  | KeyError string

text \<open>
  The dataclasses \<^verbatim>\<open>SelectSQL\<close>, \<^verbatim>\<open>InsertSQL\<close>, \<^verbatim>\<open>UpdateSQL\<close> and \<^verbatim>\<open>DeleteSQL\<close>,
  all subclasses of \<^verbatim>\<open>ParsedSQL\<close>, with their fields in the order of the source. The
  fields \<^verbatim>\<open>where\<close> and \<^verbatim>\<open>values\<close> are written \<open>where'\<close> and \<open>values'\<close>. A
  \<^verbatim>\<open>where_lambda\<close> is a callable from a row to a truth value, which may raise.
\<close>

datatype ParsedSQL =
    SelectSQL (operation: string) (columns: "string list") (table: string)
      (where': "string option") (where_lambda: "(row \<Rightarrow> error + bool) option")
      (orderby: "string option")
  | InsertSQL (operation: string) (table: string) (columns: "string list")
      (values': "string list")
  | UpdateSQL (operation: string) (table: string) (assignments: "(string \<times> string) list")
      (where': "string option") (where_lambda: "(row \<Rightarrow> error + bool) option")
  | DeleteSQL (operation: string) (table: string)
      (where': "string option") (where_lambda: "(row \<Rightarrow> error + bool) option")

section \<open>Regular expressions as \<^verbatim>\<open>re.match\<close> runs them\<close>

text \<open>
  The fragment of Python's regular expressions that \<^verbatim>\<open>condition_regex\<close> uses, matched
  by backtracking as \<^verbatim>\<open>re\<close> does: the alternatives of \<open>a|b\<close> are tried from left to
  right, a repetition is greedy (it takes the longest run first and gives characters back
  one by one), and the first way to match the whole pattern wins. The continuation \<open>k\<close>
  is the rest of the pattern; \<open>None\<close> is a failed attempt.
\<close>

datatype regex =
    Lit string
  | Rep "char \<Rightarrow> bool" nat
  | Alt regex regex
  | Seq regex regex
  | Group string regex

type_synonym groups = "(string \<times> string) list"

fun match_lit :: "string \<Rightarrow> string \<Rightarrow> string option" where
  "match_lit [] s = Some s"
| "match_lit (c # cs) [] = None"
| "match_lit (c # cs) (d # ds) = (if c = d then match_lit cs ds else None)"

text \<open>\<open>Rep P n\<close>: at least \<open>n\<close> characters of the class \<open>P\<close>, greedy.\<close>

fun rep_match :: "(char \<Rightarrow> bool) \<Rightarrow> nat \<Rightarrow> string \<Rightarrow> (string \<Rightarrow> 'a option) \<Rightarrow> 'a option" where
  "rep_match P n [] k = (if n = 0 then k [] else None)"
| "rep_match P n (c # cs) k =
     (if P c then
        (case rep_match P (n - 1) cs k of
           Some r \<Rightarrow> Some r
         | None \<Rightarrow> if n = 0 then k (c # cs) else None)
      else if n = 0 then k (c # cs) else None)"

primrec regex_match ::
  "regex \<Rightarrow> string \<Rightarrow> groups \<Rightarrow> (string \<Rightarrow> groups \<Rightarrow> 'a option) \<Rightarrow> 'a option" where
  "regex_match (Lit l) s g k = (case match_lit l s of None \<Rightarrow> None | Some s' \<Rightarrow> k s' g)"
| "regex_match (Rep P n) s g k = rep_match P n s (\<lambda>s'. k s' g)"
| "regex_match (Alt a b) s g k =
     (case regex_match a s g k of Some r \<Rightarrow> Some r | None \<Rightarrow> regex_match b s g k)"
| "regex_match (Seq a b) s g k = regex_match a s g (\<lambda>s' g'. regex_match b s' g' k)"
| "regex_match (Group name a) s g k =
     regex_match a s g (\<lambda>s' g'. k s' ((name, take (length s - length s') s) # g'))"

text \<open>\<^verbatim>\<open>pattern.match(s)\<close>: the pattern has to match at the start of \<open>s\<close>, not all of it.\<close>

definition re_match :: "regex \<Rightarrow> string \<Rightarrow> groups option" where
  "re_match r s = regex_match r s [] (\<lambda>s' g. Some g)"

text \<open>\<^verbatim>\<open>match.group(name)\<close> of a group that took part in the match.\<close>

definition group :: "groups \<Rightarrow> string \<Rightarrow> string" where
  "group g name = (case map_of g name of Some v \<Rightarrow> v | None \<Rightarrow> [])"

text \<open>
  The class \<^verbatim>\<open>\w\<close> of a \<^verbatim>\<open>str\<close> pattern: the underscore and every code point
  that \<^verbatim>\<open>str.isalnum\<close> accepts. Below 256 these are the digits and letters of ASCII
  and, in Latin-1, the ordinal indicators (170, 186), the superscript digits (178, 179,
  185), the micro sign (181), the fractions (188 to 190) and the letters (192 to 255 but
  for the signs 215 and 247).
\<close>

definition is_word :: "char \<Rightarrow> bool" where
  "is_word c \<longleftrightarrow>
     (let n = (of_char c :: nat) in
      (48 \<le> n \<and> n \<le> 57) \<or> (65 \<le> n \<and> n \<le> 90) \<or> (97 \<le> n \<and> n \<le> 122) \<or> n = 95
      \<or> n = 170 \<or> (178 \<le> n \<and> n \<le> 179) \<or> n = 181 \<or> (185 \<le> n \<and> n \<le> 186)
      \<or> (188 \<le> n \<and> n \<le> 190) \<or> (192 \<le> n \<and> n \<le> 214) \<or> (216 \<le> n \<and> n \<le> 246)
      \<or> (248 \<le> n \<and> n \<le> 255))"

text \<open>
  The class \<^verbatim>\<open>\s\<close> of a \<^verbatim>\<open>str\<close> pattern, which is also what \<^verbatim>\<open>str.strip()\<close>
  removes: the code points that \<^verbatim>\<open>str.isspace\<close> accepts. Below 256 these are 9 to
  13, 28 to 32, the next-line control 133 and the no-break space 160.
\<close>

definition is_space :: "char \<Rightarrow> bool" where
  "is_space c \<longleftrightarrow>
     (let n = (of_char c :: nat) in
      (9 \<le> n \<and> n \<le> 13) \<or> (28 \<le> n \<and> n \<le> 32) \<or> n = 133 \<or> n = 160)"

text \<open>The class \<^verbatim>\<open>.\<close> without \<^verbatim>\<open>DOTALL\<close>: every character but the line feed.\<close>

definition is_dot :: "char \<Rightarrow> bool" where
  "is_dot c \<longleftrightarrow> (of_char c :: nat) \<noteq> 10"

text \<open>\<^verbatim>\<open>str.strip()\<close>.\<close>

definition strip :: "string \<Rightarrow> string" where
  "strip s = rev (dropWhile is_space (rev (dropWhile is_space s)))"

section \<open>\<^verbatim>\<open>ToySQLParser._parse_where\<close>\<close>

text \<open>
  The pattern is compiled with \<^verbatim>\<open>re.VERBOSE\<close>, so the white space and line breaks in
  its text are not part of it:
  \<^verbatim>\<open>(?P<left>\w+)\s*(?P<operator>=|!=|<|<=|>|>=)\s*(?P<right>.+)\<close>
\<close>

definition condition_regex :: regex where
  "condition_regex =
     Seq (Group ''left'' (Rep is_word 1))
    (Seq (Rep is_space 0)
    (Seq (Group ''operator''
            (Alt (Lit ''='') (Alt (Lit ''!='') (Alt (Lit ''<'') (Alt (Lit ''<='')
            (Alt (Lit ''>'') (Lit ''>='')))))))
    (Seq (Rep is_space 0)
         (Group ''right'' (Rep is_dot 1)))))"

text \<open>\<^verbatim>\<open>row[left]\<close>, which raises \<^verbatim>\<open>KeyError\<close> when the key is missing.\<close>

definition getitem :: "row \<Rightarrow> string \<Rightarrow> error + string" where
  "getitem row c = (case row c of None \<Rightarrow> Inl (KeyError c) | Some v \<Rightarrow> Inr v)"

text \<open>The closure \<^verbatim>\<open>lambda row: row[left] <cmp> right\<close>.\<close>

definition compare_row :: "(string \<Rightarrow> string \<Rightarrow> bool) \<Rightarrow> string \<Rightarrow> string \<Rightarrow> row \<Rightarrow> error + bool" where
  "compare_row cmp left right row =
     (case getitem row left of Inl e \<Rightarrow> Inl e | Inr v \<Rightarrow> Inr (cmp v right))"

definition parse_where :: "string \<Rightarrow> error + (row \<Rightarrow> error + bool)" where
  "parse_where condition =
     (case re_match condition_regex condition of
        None \<Rightarrow> Inl (UnsupportedWhere condition)
      | Some m \<Rightarrow>
          (let left = group m ''left'';
               operator = group m ''operator'';
               right = strip (group m ''right'')
           in if operator = ''='' then Inr (compare_row (\<lambda>v r. v = r) left right)
              else if operator = ''!='' then Inr (compare_row (\<lambda>v r. v \<noteq> r) left right)
              else if operator = ''<'' then Inr (compare_row (\<lambda>v r. v < r) left right)
              else if operator = ''<='' then Inr (compare_row (\<lambda>v r. v \<le> r) left right)
              else if operator = ''>'' then Inr (compare_row (\<lambda>v r. v > r) left right)
              else if operator = ''>='' then Inr (compare_row (\<lambda>v r. v \<ge> r) left right)
              else Inl (UnsupportedOperator operator)))"

section \<open>\<^verbatim>\<open>ToyDB\<close>: the execution engine\<close>

text \<open>
  The engine's state is the store \<^verbatim>\<open>self.tables\<close>. Every method takes the store and
  returns the store it leaves behind together with its outcome: \<open>Inl\<close> the exception
  raised, \<open>Inr\<close> the value returned. The store of an \<open>Inl\<close> outcome is the one
  the exception leaves behind.
\<close>

subsection \<open>\<^verbatim>\<open>_execute_select\<close>\<close>

text \<open>\<^verbatim>\<open>list(filter(where_lambda, result))\<close>: a new list; the first exception ends it.\<close>

fun filter_rows :: "(row \<Rightarrow> error + bool) \<Rightarrow> row list \<Rightarrow> error + row list" where
  "filter_rows p [] = Inr []"
| "filter_rows p (r # rs) =
     (case p r of
        Inl e \<Rightarrow> Inl e
      | Inr b \<Rightarrow>
          (case filter_rows p rs of
             Inl e \<Rightarrow> Inl e
           | Inr rs' \<Rightarrow> Inr (if b then r # rs' else rs')))"

text \<open>
  \<^verbatim>\<open>result.sort(key=lambda row: row[col])\<close>. Python first computes the key of every
  element, in list order; an exception there leaves the list as it was. It then sorts
  the elements by their keys, ascending and stable (equal keys keep their order), which
  fixes the outcome; \<^const>\<open>sort_key\<close> is such a sort.
\<close>

fun sort_keys :: "string \<Rightarrow> row list \<Rightarrow> error + string list" where
  "sort_keys col [] = Inr []"
| "sort_keys col (r # rs) =
     (case getitem r col of
        Inl e \<Rightarrow> Inl e
      | Inr k \<Rightarrow>
          (case sort_keys col rs of
             Inl e \<Rightarrow> Inl e
           | Inr ks \<Rightarrow> Inr (k # ks)))"

definition list_sort :: "string \<Rightarrow> row list \<Rightarrow> error + row list" where
  "list_sort col rows =
     (case sort_keys col rows of
        Inl e \<Rightarrow> Inl e
      | Inr ks \<Rightarrow> Inr (map snd (sort_key fst (zip ks rows))))"

text \<open>\<^verbatim>\<open>{col: row[col] for col in query.columns}\<close>, built key by key from the empty dict.\<close>

fun dict_comp :: "string list \<Rightarrow> row \<Rightarrow> row \<Rightarrow> error + row" where
  "dict_comp [] row acc = Inr acc"
| "dict_comp (col # cols) row acc =
     (case getitem row col of
        Inl e \<Rightarrow> Inl e
      | Inr v \<Rightarrow> dict_comp cols row (acc(col \<mapsto> v)))"

fun project_rows :: "string list \<Rightarrow> row list \<Rightarrow> error + row list" where
  "project_rows cols [] = Inr []"
| "project_rows cols (r # rs) =
     (case dict_comp cols r Map.empty of
        Inl e \<Rightarrow> Inl e
      | Inr r' \<Rightarrow>
          (case project_rows cols rs of
             Inl e \<Rightarrow> Inl e
           | Inr rs' \<Rightarrow> Inr (r' # rs')))"

text \<open>
  The first two statements after the lookup: \<^verbatim>\<open>result = table\<close>, and with a
  \<^verbatim>\<open>where_lambda\<close> (a function object is always true) \<^verbatim>\<open>result\<close> becomes a new list.
  The flag says whether \<^verbatim>\<open>result\<close> is still the list object held by the store.
\<close>

definition select_filter :: "ParsedSQL \<Rightarrow> row list \<Rightarrow> error + (row list \<times> bool)" where
  "select_filter query tbl =
     (case where_lambda query of
        None \<Rightarrow> Inr (tbl, True)
      | Some p \<Rightarrow>
          (case filter_rows p tbl of
             Inl e \<Rightarrow> Inl e
           | Inr result \<Rightarrow> Inr (result, False)))"

text \<open>\<^verbatim>\<open>if query.orderby:\<close> is true of a string that is neither \<^verbatim>\<open>None\<close> nor empty.\<close>

definition select_sort :: "ParsedSQL \<Rightarrow> row list \<Rightarrow> error + (row list \<times> bool)" where
  "select_sort query result =
     (case orderby query of
        None \<Rightarrow> Inr (result, False)
      | Some col \<Rightarrow>
          if col = [] then Inr (result, False)
          else (case list_sort col result of
                  Inl e \<Rightarrow> Inl e
                | Inr sorted_result \<Rightarrow> Inr (sorted_result, True)))"

definition select_project :: "ParsedSQL \<Rightarrow> row list \<Rightarrow> error + row list" where
  "select_project query result =
     (if columns query \<noteq> [''*''] then project_rows (columns query) result else Inr result)"

text \<open>
  \<^verbatim>\<open>list.sort\<close> sorts in place. When \<^verbatim>\<open>result\<close> is still the stored list, the list
  in the store is the one that is sorted, and the store holds the sorted list from then
  on, also when the projection raises afterwards.
\<close>

definition execute_select :: "tables \<Rightarrow> ParsedSQL \<Rightarrow> tables \<times> (error + row list)" where
  "execute_select tables query =
     (case tables (table query) of
        None \<Rightarrow> (tables, Inl (TableNotExist (table query)))
      | Some tbl \<Rightarrow>
          if tbl = [] then (tables, Inl (TableNotExist (table query)))
          else
            (case select_filter query tbl of
               Inl e \<Rightarrow> (tables, Inl e)
             | Inr (result, stored) \<Rightarrow>
                 (case select_sort query result of
                    Inl e \<Rightarrow> (tables, Inl e)
                  | Inr (result', sorted_in_place) \<Rightarrow>
                      (if stored \<and> sorted_in_place then tables(table query \<mapsto> result')
                       else tables,
                       select_project query result'))))"

subsection \<open>\<^verbatim>\<open>_execute_insert\<close>\<close>

text \<open>
  \<^verbatim>\<open>zip(columns, values, strict=True)\<close> raises once one list ends before the other.
  The dict comprehension over the pairs stores them in order, so a later pair with the
  same column replaces an earlier one. The row is built before \<^verbatim>\<open>append\<close> is called.
\<close>

fun zip_strict :: "'a list \<Rightarrow> 'b list \<Rightarrow> error + ('a \<times> 'b) list" where
  "zip_strict [] [] = Inr []"
| "zip_strict (x # xs) (y # ys) =
     (case zip_strict xs ys of Inl e \<Rightarrow> Inl e | Inr ps \<Rightarrow> Inr ((x, y) # ps))"
| "zip_strict [] (y # ys) = Inl ZipStrict"
| "zip_strict (x # xs) [] = Inl ZipStrict"

definition dict_of_items :: "(string \<times> string) list \<Rightarrow> row \<Rightarrow> row" where
  "dict_of_items items acc = fold (\<lambda>(col, val) d. d(col \<mapsto> val)) items acc"

definition execute_insert :: "tables \<Rightarrow> ParsedSQL \<Rightarrow> tables \<times> (error + unit)" where
  "execute_insert tables query =
     (case tables (table query) of
        None \<Rightarrow> (tables, Inl (TableNotExist (table query)))
      | Some tbl \<Rightarrow>
          (case zip_strict (columns query) (values' query) of
             Inl e \<Rightarrow> (tables, Inl e)
           | Inr items \<Rightarrow>
               (tables(table query \<mapsto> tbl @ [dict_of_items items Map.empty]), Inr ())))"

subsection \<open>\<^verbatim>\<open>_execute_update\<close>\<close>

text \<open>
  The loop over the rows of the table. A row is skipped when there is a
  \<^verbatim>\<open>where_lambda\<close> and it is false of the row; otherwise every item of
  \<^verbatim>\<open>assignments\<close> is stored into the row. An exception of the \<^verbatim>\<open>where_lambda\<close> ends
  the loop with the rows before it already updated.
\<close>

fun update_rows ::
  "(row \<Rightarrow> error + bool) option \<Rightarrow> (string \<times> string) list \<Rightarrow> row list \<Rightarrow> row list \<times> (error + unit)" where
  "update_rows w items [] = ([], Inr ())"
| "update_rows w items (row # rest) =
     (case (case w of None \<Rightarrow> Inr False
            | Some p \<Rightarrow> (case p row of Inl e \<Rightarrow> Inl e | Inr b \<Rightarrow> Inr (\<not> b))) of
        Inl e \<Rightarrow> (row # rest, Inl e)
      | Inr skip \<Rightarrow>
          (case update_rows w items rest of
             (rest', r) \<Rightarrow> ((if skip then row else dict_of_items items row) # rest', r)))"

definition execute_update :: "tables \<Rightarrow> ParsedSQL \<Rightarrow> tables \<times> (error + unit)" where
  "execute_update tables query =
     (case tables (table query) of
        None \<Rightarrow> (tables, Inl (TableNotExist (table query)))
      | Some tbl \<Rightarrow>
          if tbl = [] then (tables, Inl (TableNotExist (table query)))
          else
            (case update_rows (where_lambda query) (assignments query) tbl of
               (tbl', r) \<Rightarrow> (tables(table query \<mapsto> tbl'), r)))"

subsection \<open>\<^verbatim>\<open>_execute_delete\<close>\<close>

text \<open>
  The list comprehension keeps a row when
  \<^verbatim>\<open>not (query.where_lambda and query.where_lambda(row))\<close> is true. Without a
  \<^verbatim>\<open>where_lambda\<close> the conjunction is \<^verbatim>\<open>None\<close> and its negation is true.
\<close>

fun delete_rows :: "(row \<Rightarrow> error + bool) option \<Rightarrow> row list \<Rightarrow> error + row list" where
  "delete_rows w [] = Inr []"
| "delete_rows w (row # rest) =
     (case (case w of None \<Rightarrow> Inr False | Some p \<Rightarrow> p row) of
        Inl e \<Rightarrow> Inl e
      | Inr b \<Rightarrow>
          (case delete_rows w rest of
             Inl e \<Rightarrow> Inl e
           | Inr rest' \<Rightarrow> Inr (if \<not> b then row # rest' else rest')))"

definition execute_delete :: "tables \<Rightarrow> ParsedSQL \<Rightarrow> tables \<times> (error + unit)" where
  "execute_delete tables query =
     (case tables (table query) of
        None \<Rightarrow> (tables, Inl (TableNotExist (table query)))
      | Some tbl \<Rightarrow>
          if tbl = [] then (tables, Inl (TableNotExist (table query)))
          else
            (case delete_rows (where_lambda query) tbl of
               Inl e \<Rightarrow> (tables, Inl e)
             | Inr tbl' \<Rightarrow> (tables(table query \<mapsto> tbl'), Inr ())))"

subsection \<open>\<^verbatim>\<open>create_table\<close> and the dispatch of \<^verbatim>\<open>execute\<close>\<close>

definition create_table :: "tables \<Rightarrow> string \<Rightarrow> string list \<Rightarrow> tables \<times> (error + unit)" where
  "create_table tables name cols =
     (if tables name \<noteq> None then (tables, Inl (TableExists name))
      else (tables(name \<mapsto> []), Inr ()))"

text \<open>
  \<^verbatim>\<open>execute\<close> parses the text and then dispatches on the class of the parsed
  statement; this is the dispatch. Only a SELECT returns its rows, the other statements
  return \<^verbatim>\<open>None\<close>.
\<close>

fun execute_parsed :: "tables \<Rightarrow> ParsedSQL \<Rightarrow> tables \<times> (error + row list option)" where
  "execute_parsed tables (SelectSQL opn cols tbl w wl ob) =
     (case execute_select tables (SelectSQL opn cols tbl w wl ob) of
        (tables', r) \<Rightarrow> (tables', map_sum id Some r))"
| "execute_parsed tables (InsertSQL opn tbl cols vals) =
     (case execute_insert tables (InsertSQL opn tbl cols vals) of
        (tables', r) \<Rightarrow> (tables', map_sum id (\<lambda>_. None) r))"
| "execute_parsed tables (UpdateSQL opn tbl items w wl) =
     (case execute_update tables (UpdateSQL opn tbl items w wl) of
        (tables', r) \<Rightarrow> (tables', map_sum id (\<lambda>_. None) r))"
| "execute_parsed tables (DeleteSQL opn tbl w wl) =
     (case execute_delete tables (DeleteSQL opn tbl w wl) of
        (tables', r) \<Rightarrow> (tables', map_sum id (\<lambda>_. None) r))"

section \<open>Auxiliary facts about the helper functions\<close>

lemma zip_strict_eq: "length xs = length ys \<Longrightarrow> zip_strict xs ys = Inr (zip xs ys)"
  by (induction xs ys rule: list_induct2) simp_all

lemma zip_strict_neq: "length xs \<noteq> length ys \<Longrightarrow> zip_strict xs ys = Inl ZipStrict"
  by (induction xs ys rule: zip_strict.induct) simp_all

lemma dict_of_items_Nil [simp]: "dict_of_items [] acc = acc"
  by (simp add: dict_of_items_def)

lemma dict_of_items_Cons [simp]:
  "dict_of_items ((c, v) # items) acc = dict_of_items items (acc(c \<mapsto> v))"
  by (simp add: dict_of_items_def)

lemma dict_of_items_notin:
  "c \<notin> fst ` set items \<Longrightarrow> dict_of_items items acc c = acc c"
  by (induction items arbitrary: acc) auto

lemma dom_dict_of_items: "dom (dict_of_items items acc) = dom acc \<union> fst ` set items"
proof (induction items arbitrary: acc)
  case Nil
  then show ?case by simp
next
  case (Cons p items)
  obtain c v where p: "p = (c, v)" by (cases p)
  have "dom (dict_of_items items (acc(c \<mapsto> v))) = dom (acc(c \<mapsto> v)) \<union> fst ` set items"
    by (rule Cons.IH)
  then show ?case unfolding p by simp
qed

text \<open>The value stored under a column is the one paired with its last occurrence.\<close>

lemma dict_of_items_last:
  "length cols = length vals \<Longrightarrow> i < length cols \<Longrightarrow>
   \<forall>j. i < j \<and> j < length cols \<longrightarrow> cols ! j \<noteq> cols ! i \<Longrightarrow>
   dict_of_items (zip cols vals) acc (cols ! i) = Some (vals ! i)"
proof (induction cols vals arbitrary: i acc rule: list_induct2)
  case Nil
  then show ?case by simp
next
  case (Cons c cs v vs)
  show ?case
  proof (cases i)
    case 0
    have "c \<notin> set cs"
    proof
      assume "c \<in> set cs"
      then obtain j where "j < length cs" "cs ! j = c" by (auto simp: in_set_conv_nth)
      with Cons.prems(2) 0 show False by (auto dest: spec [of _ "Suc j"])
    qed
    then have "c \<notin> fst ` set (zip cs vs)" by (auto dest: set_zip_leftD)
    with 0 show ?thesis by (simp add: dict_of_items_notin)
  next
    case (Suc i')
    have "\<forall>j. i' < j \<and> j < length cs \<longrightarrow> cs ! j \<noteq> cs ! i'"
      using Cons.prems(2) Suc by (auto dest: spec [of _ "Suc j" for j])
    with Cons.IH [of i'] Cons.prems(1) Suc show ?thesis by simp
  qed
qed

text \<open>Storing the zipped pairs in order is storing \<open>cols ! i \<mapsto> vals ! i\<close> for \<open>i = 0, 1, \<dots>\<close>\<close>

lemma dict_of_items_index:
  "length cols = length vals \<Longrightarrow>
   dict_of_items (zip cols vals) acc = fold (\<lambda>i d. d(cols ! i \<mapsto> vals ! i)) [0..<length cols] acc"
proof (induction cols vals arbitrary: acc rule: list_induct2)
  case Nil
  then show ?case by simp
next
  case (Cons c cs v vs)
  have "[0..<length (c # cs)] = 0 # map Suc [0..<length cs]"
    by (simp add: upt_conv_Cons map_Suc_upt del: upt_Suc)
  then have "fold (\<lambda>i d. d((c # cs) ! i \<mapsto> (v # vs) ! i)) [0..<length (c # cs)] acc
      = fold (\<lambda>i d. d((c # cs) ! i \<mapsto> (v # vs) ! i)) (0 # map Suc [0..<length cs]) acc"
    by (simp only:)
  also have "\<dots> = fold (\<lambda>i d. d(cs ! i \<mapsto> vs ! i)) [0..<length cs] (acc(c \<mapsto> v))"
    by (simp add: fold_map comp_def)
  also have "\<dots> = dict_of_items (zip cs vs) (acc(c \<mapsto> v))"
    by (rule Cons.IH [symmetric])
  also have "\<dots> = dict_of_items (zip (c # cs) (v # vs)) acc"
    by simp
  finally show ?case by (rule sym)
qed

lemma delete_rows_None: "delete_rows None tbl = Inr tbl"
  by (induction tbl) simp_all

text \<open>What a successful run of each helper of \<^verbatim>\<open>_execute_select\<close> returns.\<close>

lemma filter_rows_Inr:
  "filter_rows p tbl = Inr rs \<Longrightarrow> rs = filter (\<lambda>r. p r = Inr True) tbl"
  by (induction tbl arbitrary: rs) (auto split: sum.splits if_splits)

lemma sort_keys_Inr:
  "sort_keys col rows = Inr ks \<Longrightarrow>
   ks = map (\<lambda>r. the (r col)) rows \<and> (\<forall>r\<in>set rows. r col \<noteq> None)"
  by (induction rows arbitrary: ks) (auto simp: getitem_def split: sum.splits option.splits)

lemma map_snd_insort_key:
  "\<forall>q\<in>set qs. fst q = f (snd q) \<Longrightarrow>
   map snd (insort_key fst (f x, x) qs) = insort_key f x (map snd qs)"
  by (induction qs) auto

lemma map_snd_sort_key_zip:
  "map snd (sort_key fst (zip (map f xs) xs)) = sort_key f xs"
proof (induction xs)
  case Nil
  then show ?case by simp
next
  case (Cons x xs)
  have "\<forall>q\<in>set (sort_key fst (zip (map f xs) xs)). fst q = f (snd q)"
    by (auto simp: set_zip)
  then show ?case using Cons.IH by (simp add: map_snd_insort_key)
qed

lemma list_sort_Inr:
  assumes "list_sort col rows = Inr srt"
  shows "srt = sort_key (\<lambda>r. the (r col)) rows" and "\<forall>r\<in>set rows. r col \<noteq> None"
  using assms
  by (auto simp: list_sort_def map_snd_sort_key_zip split: sum.splits dest!: sort_keys_Inr)

lemma dict_comp_Inr:
  "dict_comp cols row acc = Inr d \<Longrightarrow> d = acc ++ (row |` set cols)"
proof (induction cols arbitrary: acc)
  case Nil
  then show ?case by simp
next
  case (Cons c cs)
  from Cons.prems obtain v where v: "row c = Some v"
    and d: "dict_comp cs row (acc(c \<mapsto> v)) = Inr d"
    by (auto simp: getitem_def split: option.splits)
  have "d = acc(c \<mapsto> v) ++ (row |` set cs)" using d by (rule Cons.IH)
  also have "\<dots> = acc ++ (row |` set (c # cs))"
    using v by (auto simp: fun_eq_iff map_add_def restrict_map_def split: option.splits)
  finally show ?case .
qed

lemma project_rows_Inr:
  "project_rows cols rows = Inr res \<Longrightarrow> res = map (\<lambda>r. r |` set cols) rows"
  by (induction rows arbitrary: res) (auto split: sum.splits dest!: dict_comp_Inr)

text \<open>What a successful run of the loop of \<^verbatim>\<open>_execute_update\<close> leaves.\<close>

lemma dict_of_items_distinct:
  "distinct (map fst items) \<Longrightarrow> (c, v) \<in> set items \<Longrightarrow> dict_of_items items acc c = Some v"
proof (induction items arbitrary: acc)
  case Nil
  then show ?case by simp
next
  case (Cons p items)
  obtain c' v' where p: "p = (c', v')" by (cases p)
  show ?case
  proof (cases "(c, v) = (c', v')")
    case True
    with Cons.prems p have "c \<notin> fst ` set items" by auto
    with True p show ?thesis by (simp add: dict_of_items_notin)
  next
    case False
    with Cons.prems p have "distinct (map fst items)" "(c, v) \<in> set items" by auto
    then have "dict_of_items items (acc(c' \<mapsto> v')) c = Some v" by (rule Cons.IH)
    with p show ?thesis by simp
  qed
qed

lemma update_rows_Inr:
  "update_rows w items tbl = (tbl', Inr u) \<Longrightarrow>
   tbl' = map (\<lambda>r. if (case w of None \<Rightarrow> True | Some p \<Rightarrow> p r = Inr True)
                   then dict_of_items items r else r) tbl
   \<and> (\<forall>r\<in>set tbl. \<forall>p. w = Some p \<longrightarrow> (\<exists>b. p r = Inr b))"
  by (induction tbl arbitrary: tbl')
     (auto split: option.splits sum.splits prod.splits if_splits)

text \<open>
  Facts about the matcher: a successful match is a successful run of the continuation,
  and a repetition fails when the continuation fails at every point it can stop.
\<close>

lemma match_lit_SomeD: "match_lit l s = Some s' \<Longrightarrow> s = l @ s'"
  by (induction l s rule: match_lit.induct) (auto split: if_splits)

lemma rep_match_SomeD:
  "rep_match P n s k = Some r \<Longrightarrow> \<exists>s'. k s' = Some r"
  by (induction P n s k rule: rep_match.induct) (auto split: if_splits option.splits)

lemma rep_match_None:
  "\<forall>c\<in>set xs. P c \<Longrightarrow> t = [] \<or> \<not> P (hd t) \<Longrightarrow>
   \<forall>i\<le>length xs. k (drop i xs @ t) = None \<Longrightarrow> rep_match P n (xs @ t) k = None"
proof (induction xs arbitrary: n)
  case Nil
  then show ?case by (cases t) auto
next
  case (Cons x xs)
  have "\<forall>i\<le>length xs. k (drop i xs @ t) = None"
    using Cons.prems(3) by (auto dest: spec [of _ "Suc i" for i])
  with Cons.IH Cons.prems(1,2) have "rep_match P (n - 1) (xs @ t) k = None" by simp
  moreover have "k (x # xs @ t) = None"
    using Cons.prems(3) by (auto dest: spec [of _ 0])
  ultimately show ?case using Cons.prems(1) by simp
qed

lemma rep_match_0_total:
  "\<forall>s'. k s' \<noteq> None \<Longrightarrow> rep_match P 0 s k \<noteq> None"
  by (induction s) (auto split: option.splits)

lemma condition_tail_after_eq:
  "regex_match (Seq (Rep is_space 0) (Group ''right'' (Rep is_dot 1))) (CHR ''='' # t) g
      (\<lambda>s' g. Some g) \<noteq> None"
proof -
  have "rep_match is_dot 0 t
          (\<lambda>s''. Some ((''right'', take (length (CHR ''='' # t) - length s'') (CHR ''='' # t)) # g))
        \<noteq> None"
    by (rule rep_match_0_total) simp
  then show ?thesis
    by (auto simp: is_space_def is_dot_def Let_def split: option.splits)
qed

lemma alt_SomeE:
  assumes "regex_match (Alt a b) s g k = Some res"
  obtains "regex_match a s g k = Some res"
  | "regex_match a s g k = None" "regex_match b s g k = Some res"
  using assms by (auto split: option.splits)

lemma match_lit_append: "match_lit l (l @ t) = Some t"
  by (induction l) simp_all

lemma lit_group_NoneD:
  "regex_match (Lit l) s g (\<lambda>s' g'. k s' ((name, take (length s - length s') s) # g')) = None
   \<Longrightarrow> s = l @ t \<Longrightarrow> k t ((name, l) # g) = None"
  by (simp add: match_lit_append)

lemma lit_group_SomeD:
  "regex_match (Lit l) s g (\<lambda>s' g'. k s' ((name, take (length s - length s') s) # g')) = Some res
   \<Longrightarrow> \<exists>s'. s = l @ s' \<and> k s' ((name, l) # g) = Some res"
  by (auto split: option.splits dest!: match_lit_SomeD)

lemma operator_group_never_le_ge:
  assumes "regex_match
     (Group ''operator''
        (Alt (Lit ''='') (Alt (Lit ''!='') (Alt (Lit ''<'') (Alt (Lit ''<='')
        (Alt (Lit ''>'') (Lit ''>='')))))))
     s g (\<lambda>s' g'. regex_match (Seq (Rep is_space 0) (Group ''right'' (Rep is_dot 1))) s' g'
            (\<lambda>s' g. Some g)) = Some res"
  shows "\<exists>s' opr. opr \<in> {''='', ''!='', ''<'', ''>''}
           \<and> regex_match (Seq (Rep is_space 0) (Group ''right'' (Rep is_dot 1))) s'
                 ((''operator'', opr) # g) (\<lambda>s' g. Some g) = Some res"
proof -
  let ?R3 = "Seq (Rep is_space 0) (Group ''right'' (Rep is_dot 1))"
  let ?k = "\<lambda>s' g'. regex_match ?R3 s' g' (\<lambda>s' g. Some g)"
  let ?k' = "\<lambda>s' g'. ?k s' ((''operator'', take (length s - length s') s) # g')"
  have no_two: False
    if none: "regex_match (Lit [c]) s g ?k' = None"
      and some: "regex_match (Lit [c, CHR ''='']) s g ?k' = Some res" for c
  proof -
    from lit_group_SomeD [OF some] obtain t where s: "s = [c, CHR ''=''] @ t" by blast
    then have "s = [c] @ (CHR ''='' # t)" by simp
    from lit_group_NoneD [OF none this]
    have "regex_match ?R3 (CHR ''='' # t) ((''operator'', [c]) # g) (\<lambda>s' g. Some g) = None" .
    with condition_tail_after_eq show False by blast
  qed
  from assms have "regex_match
        (Alt (Lit ''='') (Alt (Lit ''!='') (Alt (Lit ''<'') (Alt (Lit ''<='')
        (Alt (Lit ''>'') (Lit ''>=''))))))
        s g ?k' = Some res"
    by (simp only: regex_match.simps(5))
  then consider
      "regex_match (Lit ''='') s g ?k' = Some res"
    | "regex_match (Lit ''!='') s g ?k' = Some res"
    | "regex_match (Lit ''<'') s g ?k' = Some res"
    | "regex_match (Lit ''<'') s g ?k' = None" "regex_match (Lit ''<='') s g ?k' = Some res"
    | "regex_match (Lit ''>'') s g ?k' = Some res"
    | "regex_match (Lit ''>'') s g ?k' = None" "regex_match (Lit ''>='') s g ?k' = Some res"
    by (elim alt_SomeE) blast+
  then show ?thesis
  proof cases
    case 1
    from lit_group_SomeD [OF this] show ?thesis by blast
  next
    case 2
    from lit_group_SomeD [OF this] show ?thesis by blast
  next
    case 3
    from lit_group_SomeD [OF this] show ?thesis by blast
  next
    case 4
    with no_two show ?thesis by blast
  next
    case 5
    from lit_group_SomeD [OF this] show ?thesis by blast
  next
    case 6
    with no_two show ?thesis by blast
  qed
qed

lemma condition_match_operator_run:
  assumes "re_match condition_regex s = Some m"
  shows "\<exists>s2 l. regex_match
     (Group ''operator''
        (Alt (Lit ''='') (Alt (Lit ''!='') (Alt (Lit ''<'') (Alt (Lit ''<='')
        (Alt (Lit ''>'') (Lit ''>='')))))))
     s2 [(''left'', l)]
     (\<lambda>s' g'. regex_match (Seq (Rep is_space 0) (Group ''right'' (Rep is_dot 1))) s' g'
            (\<lambda>s' g. Some g)) = Some m"
proof -
  define K :: "string \<Rightarrow> groups \<Rightarrow> groups option" where "K = (\<lambda>s' g. Some g)"
  define R3 where "R3 = Seq (Rep is_space 0) (Group ''right'' (Rep is_dot 1))"
  define OPS where "OPS = Group ''operator''
        (Alt (Lit ''='') (Alt (Lit ''!='') (Alt (Lit ''<'') (Alt (Lit ''<='')
        (Alt (Lit ''>'') (Lit ''>=''))))))"
  define R2 where "R2 = Seq OPS R3"
  define R1 where "R1 = Seq (Rep is_space 0) R2"
  have cr: "condition_regex = Seq (Group ''left'' (Rep is_word 1)) R1"
    by (simp add: condition_regex_def R1_def R2_def OPS_def R3_def)
  from assms have "rep_match is_word 1 s
      (\<lambda>s'. regex_match R1 s' [(''left'', take (length s - length s') s)] K) = Some m"
    by (simp add: re_match_def cr K_def)
  then obtain s1 l where 1: "regex_match R1 s1 [(''left'', l)] K = Some m"
    by (blast dest: rep_match_SomeD)
  then have "rep_match is_space 0 s1 (\<lambda>s'. regex_match R2 s' [(''left'', l)] K) = Some m"
    by (simp add: R1_def)
  then obtain s2 where 2: "regex_match R2 s2 [(''left'', l)] K = Some m"
    by (blast dest: rep_match_SomeD)
  then have "regex_match OPS s2 [(''left'', l)] (\<lambda>s' g'. regex_match R3 s' g' K) = Some m"
    by (simp add: R2_def)
  then show ?thesis unfolding OPS_def R3_def K_def by blast
qed

lemma condition_tail_shape:
  assumes "regex_match (Seq (Rep is_space 0) (Group ''right'' (Rep is_dot 1))) s g
      (\<lambda>s' g. Some g) = Some m"
  shows "\<exists>r. m = (''right'', r) # g"
proof -
  from assms have "rep_match is_space 0 s
      (\<lambda>s'. rep_match is_dot 1 s' (\<lambda>s''. Some ((''right'', take (length s' - length s'') s') # g)))
      = Some m"
    by simp
  then obtain s4 where "rep_match is_dot 1 s4
          (\<lambda>s''. Some ((''right'', take (length s4 - length s'') s4) # g)) = Some m"
    by (blast dest: rep_match_SomeD)
  then show ?thesis
    by (blast dest: rep_match_SomeD)
qed

text \<open>The operator of a match is never \<^verbatim>\<open><=\<close> or \<^verbatim>\<open>>=\<close>.\<close>

lemma condition_match_never_le_ge:
  assumes "re_match condition_regex s = Some m"
  shows "group m ''operator'' \<in> {''='', ''!='', ''<'', ''>''}"
proof -
  from condition_match_operator_run [OF assms] obtain s2 l where
    "regex_match
     (Group ''operator''
        (Alt (Lit ''='') (Alt (Lit ''!='') (Alt (Lit ''<'') (Alt (Lit ''<='')
        (Alt (Lit ''>'') (Lit ''>='')))))))
     s2 [(''left'', l)]
     (\<lambda>s' g'. regex_match (Seq (Rep is_space 0) (Group ''right'' (Rep is_dot 1))) s' g'
            (\<lambda>s' g. Some g)) = Some m"
    by blast
  from operator_group_never_le_ge [OF this] obtain s3 opr where
    opr: "opr \<in> {''='', ''!='', ''<'', ''>''}"
    and "regex_match (Seq (Rep is_space 0) (Group ''right'' (Rep is_dot 1))) s3
           [(''operator'', opr), (''left'', l)] (\<lambda>s' g. Some g) = Some m"
    by blast
  from condition_tail_shape [OF this(2)] obtain r
    where "m = [(''right'', r), (''operator'', opr), (''left'', l)]" by blast
  with opr show ?thesis by (simp add: group_def)
qed

lemma operator_group_None:
  assumes "s = [] \<or> (hd s \<noteq> CHR ''='' \<and> hd s \<noteq> CHR ''<'' \<and> hd s \<noteq> CHR ''>'' \<and> take 2 s \<noteq> ''!='')"
  shows "regex_match
     (Group ''operator''
        (Alt (Lit ''='') (Alt (Lit ''!='') (Alt (Lit ''<'') (Alt (Lit ''<='')
        (Alt (Lit ''>'') (Lit ''>='')))))))
     s g k = None"
proof (cases s)
  case Nil
  then show ?thesis by simp
next
  case (Cons c cs)
  with assms show ?thesis by (cases cs) (auto split: option.splits)
qed

lemma is_word_not_operator:
  "is_word c \<Longrightarrow> \<not> is_space c \<and> c \<noteq> CHR ''='' \<and> c \<noteq> CHR ''<'' \<and> c \<noteq> CHR ''>'' \<and> c \<noteq> CHR ''!''"
  by (auto simp: is_word_def is_space_def Let_def)

lemma is_space_not_operator:
  "is_space c \<Longrightarrow> c \<noteq> CHR ''='' \<and> c \<noteq> CHR ''<'' \<and> c \<noteq> CHR ''>'' \<and> c \<noteq> CHR ''!''"
  by (auto simp: is_space_def Let_def)

lemma condition_match_None:
  assumes word: "\<forall>c\<in>set ident. is_word c" and space: "\<forall>c\<in>set ws. is_space c"
    and c: "\<not> is_word c" "\<not> is_space c" "c \<noteq> CHR ''=''" "c \<noteq> CHR ''<''" "c \<noteq> CHR ''>''"
    and bang: "take 2 (c # more) \<noteq> ''!=''"
  shows "re_match condition_regex (ident @ ws @ c # more) = None"
proof -
  define K :: "string \<Rightarrow> groups \<Rightarrow> groups option" where "K = (\<lambda>s' g. Some g)"
  define R3 where "R3 = Seq (Rep is_space 0) (Group ''right'' (Rep is_dot 1))"
  define OPS where "OPS = Group ''operator''
        (Alt (Lit ''='') (Alt (Lit ''!='') (Alt (Lit ''<'') (Alt (Lit ''<='')
        (Alt (Lit ''>'') (Lit ''>=''))))))"
  define R2 where "R2 = Seq OPS R3"
  define R1 where "R1 = Seq (Rep is_space 0) R2"
  have cr: "condition_regex = Seq (Group ''left'' (Rep is_word 1)) R1"
    by (simp add: condition_regex_def R1_def R2_def OPS_def R3_def)
  let ?rest = "c # more"
  have R2_None: "regex_match R2 s g K = None"
    if "s = [] \<or> (hd s \<noteq> CHR ''='' \<and> hd s \<noteq> CHR ''<'' \<and> hd s \<noteq> CHR ''>'' \<and> take 2 s \<noteq> ''!='')"
    for s g
    using operator_group_None [OF that] by (simp add: R2_def OPS_def)
  have R2_rest: "regex_match R2 ?rest g K = None" for g
    using c bang by (intro R2_None) simp
  have R2_space: "regex_match R2 (x # t) g K = None" if "is_space x" for x t g
    using is_space_not_operator [OF that] by (intro R2_None) simp
  have R2_word: "regex_match R2 (x # t) g K = None" if "is_word x" for x t g
    using is_word_not_operator [OF that] by (intro R2_None) simp
  have R1_tail: "regex_match R1 (ws @ ?rest) g K = None" for g
  proof -
    have "\<forall>i\<le>length ws. regex_match R2 (drop i ws @ ?rest) g K = None"
    proof (intro allI impI)
      fix i assume "i \<le> length ws"
      show "regex_match R2 (drop i ws @ ?rest) g K = None"
      proof (cases "drop i ws")
        case Nil
        then show ?thesis by (simp add: R2_rest)
      next
        case (Cons x t)
        then have "x \<in> set ws" by (metis in_set_dropD list.set_intros(1))
        with space have "is_space x" by simp
        with Cons show ?thesis by (simp add: R2_space)
      qed
    qed
    with space c(2) have "rep_match is_space 0 (ws @ ?rest) (\<lambda>s'. regex_match R2 s' g K) = None"
      by (intro rep_match_None) simp_all
    then show ?thesis by (simp add: R1_def)
  qed
  have R1_word: "regex_match R1 (x # t) g K = None" if "is_word x" for x t g
    using is_word_not_operator [OF that] R2_word [OF that] by (simp add: R1_def)
  have "\<forall>i\<le>length ident.
          regex_match R1 (drop i ident @ ws @ ?rest)
            [(''left'', take (length (ident @ ws @ ?rest) - length (drop i ident @ ws @ ?rest))
                          (ident @ ws @ ?rest))] K = None"
  proof (intro allI impI)
    fix i assume "i \<le> length ident"
    show "regex_match R1 (drop i ident @ ws @ ?rest)
            [(''left'', take (length (ident @ ws @ ?rest) - length (drop i ident @ ws @ ?rest))
                          (ident @ ws @ ?rest))] K = None"
    proof (cases "drop i ident")
      case Nil
      then show ?thesis by (simp add: R1_tail)
    next
      case (Cons x t)
      then have "x \<in> set ident" by (metis in_set_dropD list.set_intros(1))
      with word have "is_word x" by simp
      with Cons show ?thesis by (simp add: R1_word)
    qed
  qed
  moreover have "ws @ ?rest = [] \<or> \<not> is_word (hd (ws @ ?rest))"
  proof (cases ws)
    case Nil
    with c(1) show ?thesis by simp
  next
    case (Cons x t)
    with space have "is_space x" by simp
    then have "\<not> is_word x" using is_word_not_operator by blast
    with Cons show ?thesis by simp
  qed
  ultimately have "rep_match is_word 1 (ident @ ws @ ?rest)
      (\<lambda>s'. regex_match R1 s'
         [(''left'', take (length (ident @ ws @ ?rest) - length s') (ident @ ws @ ?rest))] K) = None"
    using word by (intro rep_match_None) simp_all
  then show ?thesis by (simp add: re_match_def cr K_def)
qed

text \<open>
  The no-break space is white space for the pattern and for \<^verbatim>\<open>strip\<close>, and
  \<open>e\<close> with an acute accent (233) is a word character, as in Python.
\<close>

lemma parse_where_latin1:
  "parse_where (''a'' @ [CHR 0xA0] @ ''= 5'') = Inr (compare_row (\<lambda>v r. v = r) ''a'' ''5'')"
  "parse_where (''a'' @ [CHR 0xE9] @ ''=5'')
     = Inr (compare_row (\<lambda>v r. v = r) (''a'' @ [CHR 0xE9]) ''5'')"
  "parse_where (''a = 5'' @ [CHR 0xA0]) = Inr (compare_row (\<lambda>v r. v = r) ''a'' ''5'')"
  by (simp_all add: parse_where_def re_match_def condition_regex_def is_word_def is_space_def
      is_dot_def group_def strip_def)

section \<open>The claims\<close>

subsection \<open>C1: DELETE without WHERE\<close>

text \<open>
  Without a \<^verbatim>\<open>where_lambda\<close> the list comprehension of \<^verbatim>\<open>_execute_delete\<close> keeps
  every row, so on any store a DELETE without WHERE leaves the store as it was.
\<close>

lemma execute_delete_no_where:
  "fst (execute_delete tables (DeleteSQL opn t w None)) = tables"
  by (auto simp: execute_delete_def delete_rows_None split: option.splits)

text \<open>
  C1 says that \<^verbatim>\<open>DELETE FROM T\<close> with no WHERE clause leaves \<open>T\<close> empty. On the
  store with the table \<open>t\<close> holding the one row \<open>{a: 1}\<close> the statement returns
  normally and \<open>t\<close> still holds that row.
\<close>

theorem delete_without_where_keeps_rows:
  "execute_delete [''t'' \<mapsto> [[''a'' \<mapsto> ''1'']]] (DeleteSQL ''DELETE'' ''t'' None None)
     = ([''t'' \<mapsto> [[''a'' \<mapsto> ''1'']]], Inr ())"
  by (simp add: execute_delete_def)

subsection \<open>C2: SELECT and the store\<close>

text \<open>
  With a \<^verbatim>\<open>where_lambda\<close>, or without an ORDER BY column, \<^verbatim>\<open>_execute_select\<close>
  leaves the store as it was, whatever its outcome.
\<close>

lemma execute_select_store_unchanged:
  assumes "where_lambda query \<noteq> None \<or> orderby query = None \<or> orderby query = Some []"
  shows "fst (execute_select tables query) = tables"
  using assms
  by (auto simp: execute_select_def select_filter_def select_sort_def
      split: option.splits sum.splits if_splits)

text \<open>
  C2 says that a SELECT that executes successfully leaves the store as it was, and that
  ORDER BY reorders only the returned rows. On the store with the table \<open>t\<close> holding
  the rows \<open>{a: 2}, {a: 1}\<close>, a SELECT of all columns with ORDER BY \<open>a\<close> and no
  WHERE returns the rows in the order \<open>{a: 1}, {a: 2}\<close>, and the store holds them in
  that order afterwards: it is not the store it was.
\<close>

theorem select_order_by_sorts_store:
  "execute_select [''t'' \<mapsto> [[''a'' \<mapsto> ''2''], [''a'' \<mapsto> ''1'']]]
       (SelectSQL ''SELECT'' [''*''] ''t'' None None (Some ''a''))
     = ([''t'' \<mapsto> [[''a'' \<mapsto> ''1''], [''a'' \<mapsto> ''2'']]],
        Inr [[''a'' \<mapsto> ''1''], [''a'' \<mapsto> ''2'']])
   \<and> [''t'' \<mapsto> [[''a'' \<mapsto> ''1''], [''a'' \<mapsto> ''2'']]]
       \<noteq> [''t'' \<mapsto> [[''a'' \<mapsto> ''2''], [''a'' \<mapsto> ''1'']]]"
  by (auto simp: execute_select_def select_filter_def select_sort_def select_project_def
      list_sort_def getitem_def dest!: map_upd_eqD1)

subsection \<open>C3: two-character operators\<close>

text \<open>
  No condition compiles to \<^verbatim>\<open><=\<close> or \<^verbatim>\<open>>=\<close>: whenever \<^verbatim>\<open>_parse_where\<close>
  returns a predicate, it is one of the closures for \<^verbatim>\<open>=\<close>, \<^verbatim>\<open>!=\<close>, \<^verbatim>\<open><\<close> and
  \<^verbatim>\<open>>\<close>.
\<close>

lemma parse_where_never_le_ge:
  assumes "parse_where condition = Inr p"
  shows "\<exists>left right. p = compare_row (\<lambda>v r. v = r) left right
                    \<or> p = compare_row (\<lambda>v r. v \<noteq> r) left right
                    \<or> p = compare_row (\<lambda>v r. v < r) left right
                    \<or> p = compare_row (\<lambda>v r. v > r) left right"
proof -
  from assms obtain m where m: "re_match condition_regex condition = Some m"
    by (auto simp: parse_where_def split: option.splits)
  let ?l = "group m ''left''" and ?r = "strip (group m ''right'')"
  from condition_match_never_le_ge [OF m] assms m
  have "p = compare_row (\<lambda>v r. v = r) ?l ?r \<or> p = compare_row (\<lambda>v r. v \<noteq> r) ?l ?r
      \<or> p = compare_row (\<lambda>v r. v < r) ?l ?r \<or> p = compare_row (\<lambda>v r. v > r) ?l ?r"
    by (auto simp: parse_where_def Let_def)
  then show ?thesis by blast
qed

text \<open>
  C3 says that the two-character operators \<^verbatim>\<open>!=\<close>, \<^verbatim>\<open><=\<close> and \<^verbatim>\<open>>=\<close> are
  recognised as a whole, so that \<^verbatim>\<open>a <= 5\<close> compiles to the operator \<^verbatim>\<open><=\<close> with the
  right operand \<^verbatim>\<open>5\<close>. The pattern tries \<^verbatim>\<open><\<close> before \<^verbatim>\<open><=\<close>, and the rest of the
  pattern matches after \<^verbatim>\<open><\<close>: the match of \<^verbatim>\<open>a <= 5\<close> has the operator \<^verbatim>\<open><\<close> and the
  right operand \<^verbatim>\<open>= 5\<close>. The compiled predicate is true of the row \<open>{a: 7}\<close>, although
  the string \<open>7\<close> is not less than or equal to the string \<open>5\<close>.
\<close>

theorem parse_where_le_is_lt:
  "re_match condition_regex ''a <= 5''
     = Some [(''right'', ''= 5''), (''operator'', ''<''), (''left'', ''a'')]
   \<and> parse_where ''a <= 5'' = Inr (compare_row (\<lambda>v r. v < r) ''a'' ''= 5'')
   \<and> compare_row (\<lambda>v r. v < r) ''a'' ''= 5'' [''a'' \<mapsto> ''7''] = Inr True
   \<and> \<not> (''7'' :: string) \<le> ''5''"
  by (simp add: parse_where_def re_match_def condition_regex_def is_word_def is_space_def
      is_dot_def group_def strip_def compare_row_def getitem_def)

subsection \<open>C4: unsupported operators\<close>

text \<open>
  The last \<^verbatim>\<open>else\<close> of the dispatch in \<^verbatim>\<open>_parse_where\<close> raises the error that
  names the operator. It is not reached: the operator group of the pattern admits the
  six supported operators only, so whenever the pattern matches, the dispatch finds the
  operator among its branches.
\<close>

lemma parse_where_else_unreachable:
  "parse_where condition \<noteq> Inl (UnsupportedOperator tok)"
proof (cases "re_match condition_regex condition")
  case None
  then show ?thesis by (simp add: parse_where_def)
next
  case (Some m)
  from condition_match_never_le_ge [OF Some]
  have "group m ''operator'' \<in> {''='', ''!='', ''<'', ''>''}" .
  with Some show ?thesis by (auto simp: parse_where_def Let_def)
qed

text \<open>
  A condition made of word characters, then white space (possibly none), then a
  character that is neither a word character nor white space and that does not begin one
  of \<^verbatim>\<open>=\<close>, \<^verbatim>\<open>!=\<close>, \<^verbatim>\<open><\<close>, \<^verbatim>\<open>>\<close>, then any text, does not match the pattern
  and is refused by the guard \<^verbatim>\<open>if not match\<close>.
\<close>

lemma parse_where_other_operator:
  assumes "\<forall>x\<in>set ident. is_word x" and "\<forall>x\<in>set ws. is_space x"
    and "\<not> is_word c" and "\<not> is_space c"
    and "c \<noteq> CHR ''=''" and "c \<noteq> CHR ''<''" and "c \<noteq> CHR ''>''"
    and "take 2 (c # more) \<noteq> ''!=''"
  shows "parse_where (ident @ ws @ c # more) = Inl (UnsupportedWhere (ident @ ws @ c # more))"
  using condition_match_None [OF assms] by (simp add: parse_where_def)

text \<open>
  C4 says that a condition whose operator is none of the six supported ones fails with
  the error that names the offending operator, as opposed to the generic error of an
  unsupported condition. \<^verbatim>\<open>_parse_where\<close> has that error, in the last \<^verbatim>\<open>else\<close> of
  its dispatch, but the pattern before it lets no other operator through: for
  \<^verbatim>\<open>a ~ 5\<close> the pattern does not match, and what is raised is the generic error with
  the whole condition, not the error naming \<^verbatim>\<open>~\<close>.
\<close>

theorem unsupported_operator_raises_generic_error:
  "re_match condition_regex ''a ~ 5'' = None
   \<and> parse_where ''a ~ 5'' = Inl (UnsupportedWhere ''a ~ 5'')
   \<and> parse_where ''a ~ 5'' \<noteq> Inl (UnsupportedOperator ''~'')"
  by (simp add: parse_where_def re_match_def condition_regex_def is_word_def is_space_def
      is_dot_def)

subsection \<open>C5: SELECT and INSERT on an empty table\<close>

text \<open>
  C5: on a store in which the table \<open>name\<close> is present and has no rows, every SELECT
  on \<open>name\<close> raises the table-does-not-exist error and leaves the store as it was; an
  INSERT into \<open>name\<close> never raises that error, and when it has as many values as
  columns it succeeds and the table then holds the one new row.
\<close>

theorem select_empty_fails_insert_succeeds:
  assumes "tables name = Some []"
  shows "execute_select tables (SelectSQL opn cols name w wl ob) = (tables, Inl (TableNotExist name))
       \<and> snd (execute_insert tables (InsertSQL opn' name cols' vals)) \<noteq> Inl (TableNotExist name)
       \<and> (length cols' = length vals \<longrightarrow>
            execute_insert tables (InsertSQL opn' name cols' vals)
              = (tables(name \<mapsto> [dict_of_items (zip cols' vals) Map.empty]), Inr ()))"
  using assms
  by (cases "length cols' = length vals")
     (simp_all add: execute_select_def execute_insert_def zip_strict_eq zip_strict_neq)

theorem select_empty_fails_insert_succeeds_witness:
  "execute_select [''users'' \<mapsto> []] (SelectSQL ''SELECT'' [''*''] ''users'' None None None)
     = ([''users'' \<mapsto> []], Inl (TableNotExist ''users''))
   \<and> execute_insert [''users'' \<mapsto> []] (InsertSQL ''INSERT'' ''users'' [''id''] [''1''])
     = ([''users'' \<mapsto> [[''id'' \<mapsto> ''1'']]], Inr ())"
  using select_empty_fails_insert_succeeds [where tables = "[''users'' \<mapsto> []]"
      and name = "''users''" and opn = "''SELECT''" and cols = "[''*'']" and w = None
      and wl = None and ob = None and opn' = "''INSERT''" and cols' = "[''id'']"
      and vals = "[''1'']"]
  by simp

subsection \<open>C6: INSERT pairs columns and values strictly\<close>

text \<open>
  C6: for an INSERT into a table that is in the store, if the column list and the value
  list have different lengths, the \<^verbatim>\<open>zip\<close> error is raised and the store is as it was;
  if they have the same length, the statement succeeds and the table is the old table
  followed by one new row. The new row is the dict that received \<open>cols ! i \<mapsto> vals ! i\<close>
  for \<open>i = 0, 1, \<dots>\<close> in this order; its keys are the columns, and it maps
  \<open>cols ! i\<close> to \<open>vals ! i\<close> for every \<open>i\<close> whose column does not occur again later
  in the list (so for every \<open>i\<close> when no column is repeated).
\<close>

theorem insert_strict_pairing:
  assumes "tables name = Some tbl"
  shows "(length cols \<noteq> length vals \<longrightarrow>
            execute_insert tables (InsertSQL opn name cols vals) = (tables, Inl ZipStrict))
       \<and> (length cols = length vals \<longrightarrow>
            (\<exists>r. execute_insert tables (InsertSQL opn name cols vals)
                    = (tables(name \<mapsto> tbl @ [r]), Inr ())
               \<and> r = fold (\<lambda>i d. d(cols ! i \<mapsto> vals ! i)) [0..<length cols] Map.empty
               \<and> dom r = set cols
               \<and> (\<forall>i<length cols. (\<forall>j. i < j \<and> j < length cols \<longrightarrow> cols ! j \<noteq> cols ! i)
                     \<longrightarrow> r (cols ! i) = Some (vals ! i))))"
proof (cases "length cols = length vals")
  case True
  let ?r = "dict_of_items (zip cols vals) Map.empty"
  have "execute_insert tables (InsertSQL opn name cols vals) = (tables(name \<mapsto> tbl @ [?r]), Inr ())"
    using assms True by (simp add: execute_insert_def zip_strict_eq)
  moreover have "?r = fold (\<lambda>i d. d(cols ! i \<mapsto> vals ! i)) [0..<length cols] Map.empty"
    using True by (rule dict_of_items_index)
  moreover have "dom ?r = set cols"
    using True by (simp add: dom_dict_of_items) (metis list.set_map map_fst_zip)
  moreover have "\<forall>i<length cols. (\<forall>j. i < j \<and> j < length cols \<longrightarrow> cols ! j \<noteq> cols ! i)
                     \<longrightarrow> ?r (cols ! i) = Some (vals ! i)"
    using True by (simp add: dict_of_items_last)
  ultimately show ?thesis using True by metis
next
  case False
  with assms show ?thesis by (simp add: execute_insert_def zip_strict_neq)
qed

theorem insert_strict_pairing_witness:
  "execute_insert [''users'' \<mapsto> [[''id'' \<mapsto> ''0'']]]
       (InsertSQL ''INSERT'' ''users'' [''id'', ''name''] [''1''])
     = ([''users'' \<mapsto> [[''id'' \<mapsto> ''0'']]], Inl ZipStrict)
   \<and> execute_insert [''users'' \<mapsto> [[''id'' \<mapsto> ''0'']]]
       (InsertSQL ''INSERT'' ''users'' [''id'', ''name''] [''1'', ''Bob''])
     = ([''users'' \<mapsto> [[''id'' \<mapsto> ''0''], [''id'' \<mapsto> ''1'', ''name'' \<mapsto> ''Bob'']]], Inr ())"
  using insert_strict_pairing [where tables = "[''users'' \<mapsto> [[''id'' \<mapsto> ''0'']]]"
      and name = "''users''" and tbl = "[[''id'' \<mapsto> ''0'']]" and opn = "''INSERT''"
      and cols = "[''id'', ''name'']" and vals = "[''1'']"]
    insert_strict_pairing [where tables = "[''users'' \<mapsto> [[''id'' \<mapsto> ''0'']]]"
      and name = "''users''" and tbl = "[[''id'' \<mapsto> ''0'']]" and opn = "''INSERT''"
      and cols = "[''id'', ''name'']" and vals = "[''1'', ''Bob'']"]
  by simp

subsection \<open>C7: ORDER BY\<close>

text \<open>
  C7: a SELECT with ORDER BY \<open>col\<close> that executes successfully returns the selected
  rows (those of the table for which the predicate is true, all of them without a
  predicate) in an order in which their values at \<open>col\<close> are non-decreasing as strings,
  and rows with the same value at \<open>col\<close> keep the relative order they had in the
  table. Every selected row has the column \<open>col\<close>. (An ORDER BY column is a
  non-empty string; \<^verbatim>\<open>if query.orderby:\<close> skips the sort for an empty one.) The rows are projected to the
  requested columns after sorting; when \<open>col\<close> is among the returned columns, the
  returned rows themselves are non-decreasing at \<open>col\<close> and stable.
\<close>

theorem select_order_by_stable_sorted:
  assumes "execute_select tables (SelectSQL opn cols t w wl (Some col)) = (tables', Inr res)"
    and "col \<noteq> []"
  shows "\<exists>tbl rows srt.
           tables t = Some tbl
         \<and> rows = (case wl of None \<Rightarrow> tbl | Some p \<Rightarrow> filter (\<lambda>r. p r = Inr True) tbl)
         \<and> (\<forall>r\<in>set rows. r col \<noteq> None)
         \<and> length srt = length rows
         \<and> sorted (map (\<lambda>r. the (r col)) srt)
         \<and> (\<forall>k. filter (\<lambda>r. r col = Some k) srt = filter (\<lambda>r. r col = Some k) rows)
         \<and> res = (if cols = [''*''] then srt else map (\<lambda>r. r |` set cols) srt)
         \<and> (cols = [''*''] \<or> col \<in> set cols \<longrightarrow>
              sorted (map (\<lambda>r. the (r col)) res)
            \<and> (\<forall>k. filter (\<lambda>r. r col = Some k) res
                   = filter (\<lambda>r. r col = Some k)
                       (if cols = [''*''] then rows else map (\<lambda>r. r |` set cols) rows)))"
proof -
  let ?q = "SelectSQL opn cols t w wl (Some col)"
  let ?key = "\<lambda>r::row. the (r col)"
  let ?proj = "\<lambda>r::row. r |` set cols"
  from assms(1) obtain tbl where tbl: "tables t = Some tbl"
    by (auto simp: execute_select_def split: option.splits)
  define rows where "rows = (case wl of None \<Rightarrow> tbl | Some p \<Rightarrow> filter (\<lambda>r. p r = Inr True) tbl)"
  from assms(1) tbl obtain stored where flt: "select_filter ?q tbl = Inr (rows, stored)"
    by (auto simp: execute_select_def select_filter_def rows_def
        split: option.splits if_splits sum.splits dest: filter_rows_Inr)
  from assms tbl flt obtain srt where srt: "list_sort col rows = Inr srt"
    and res: "select_project ?q srt = Inr res"
    by (auto simp: execute_select_def select_sort_def split: if_splits sum.splits)
  have srt_eq: "srt = sort_key ?key rows" and present: "\<forall>r\<in>set rows. r col \<noteq> None"
    using list_sort_Inr [OF srt] by simp_all
  have sorted_srt: "sorted (map ?key srt)"
    by (simp add: srt_eq)
  have stable: "filter (\<lambda>r. r col = Some k) srt = filter (\<lambda>r. r col = Some k) rows" for k
  proof -
    have "filter (\<lambda>r. r col = Some k) srt = filter (\<lambda>r. ?key r = k) srt"
      using present by (intro filter_cong) (auto simp: srt_eq)
    also have "\<dots> = filter (\<lambda>r. ?key r = k) rows"
      by (simp add: srt_eq sort_key_stable)
    also have "\<dots> = filter (\<lambda>r. r col = Some k) rows"
      using present by (intro filter_cong) auto
    finally show ?thesis .
  qed
  have res_eq: "res = (if cols = [''*''] then srt else map ?proj srt)"
    using res by (auto simp: select_project_def dest: project_rows_Inr)
  have kept: "sorted (map ?key res)
            \<and> (\<forall>k. filter (\<lambda>r. r col = Some k) res
                   = filter (\<lambda>r. r col = Some k) (if cols = [''*''] then rows else map ?proj rows))"
    if "cols = [''*''] \<or> col \<in> set cols"
  proof (cases "cols = [''*'']")
    case True
    then show ?thesis using sorted_srt stable res_eq by simp
  next
    case False
    with that have col: "col \<in> set cols" by simp
    then have key: "?proj r col = r col" for r by simp
    have "map ?key res = map ?key srt"
      using False res_eq key by (simp add: comp_def)
    then have 1: "sorted (map ?key res)"
      using sorted_srt by (simp only:)
    have flt_map: "filter (\<lambda>r. r col = Some k) (map ?proj xs)
                 = map ?proj (filter (\<lambda>r. r col = Some k) xs)" for k xs
      using key by (simp add: filter_map comp_def)
    have 2: "filter (\<lambda>r. r col = Some k) res = filter (\<lambda>r. r col = Some k) (map ?proj rows)" for k
    proof -
      have "filter (\<lambda>r. r col = Some k) res = map ?proj (filter (\<lambda>r. r col = Some k) srt)"
        using False res_eq by (simp only: flt_map if_False)
      also have "\<dots> = map ?proj (filter (\<lambda>r. r col = Some k) rows)"
        by (simp only: stable)
      also have "\<dots> = filter (\<lambda>r. r col = Some k) (map ?proj rows)"
        by (simp only: flt_map)
      finally show ?thesis .
    qed
    show ?thesis using False 1 2 by simp
  qed
  show ?thesis
    using tbl rows_def present sorted_srt stable res_eq kept srt_eq
    by (intro exI [of _ tbl] exI [of _ rows] exI [of _ srt]) simp
qed

theorem select_order_by_stable_sorted_witness:
  "execute_select
       [''t'' \<mapsto> [[''n'' \<mapsto> ''b'', ''k'' \<mapsto> ''2''], [''n'' \<mapsto> ''c'', ''k'' \<mapsto> ''1''],
                    [''n'' \<mapsto> ''a'', ''k'' \<mapsto> ''1'']]]
       (SelectSQL ''SELECT'' [''n'', ''k''] ''t'' (Some ''k != 0'')
          (Some (compare_row (\<lambda>v r. v \<noteq> r) ''k'' ''0'')) (Some ''k''))
     = ([''t'' \<mapsto> [[''n'' \<mapsto> ''b'', ''k'' \<mapsto> ''2''], [''n'' \<mapsto> ''c'', ''k'' \<mapsto> ''1''],
                    [''n'' \<mapsto> ''a'', ''k'' \<mapsto> ''1'']]],
        Inr [[''n'' \<mapsto> ''c'', ''k'' \<mapsto> ''1''], [''n'' \<mapsto> ''a'', ''k'' \<mapsto> ''1''],
             [''n'' \<mapsto> ''b'', ''k'' \<mapsto> ''2'']])
   \<and> sorted (map (\<lambda>r. the (r ''k''))
        [[''n'' \<mapsto> ''c'', ''k'' \<mapsto> ''1''], [''n'' \<mapsto> ''a'', ''k'' \<mapsto> ''1''],
         [''n'' \<mapsto> ''b'', ''k'' \<mapsto> ''2'']])"
proof -
  have run: "execute_select
       [''t'' \<mapsto> [[''n'' \<mapsto> ''b'', ''k'' \<mapsto> ''2''], [''n'' \<mapsto> ''c'', ''k'' \<mapsto> ''1''],
                    [''n'' \<mapsto> ''a'', ''k'' \<mapsto> ''1'']]]
       (SelectSQL ''SELECT'' [''n'', ''k''] ''t'' (Some ''k != 0'')
          (Some (compare_row (\<lambda>v r. v \<noteq> r) ''k'' ''0'')) (Some ''k''))
     = ([''t'' \<mapsto> [[''n'' \<mapsto> ''b'', ''k'' \<mapsto> ''2''], [''n'' \<mapsto> ''c'', ''k'' \<mapsto> ''1''],
                    [''n'' \<mapsto> ''a'', ''k'' \<mapsto> ''1'']]],
        Inr [[''n'' \<mapsto> ''c'', ''k'' \<mapsto> ''1''], [''n'' \<mapsto> ''a'', ''k'' \<mapsto> ''1''],
             [''n'' \<mapsto> ''b'', ''k'' \<mapsto> ''2'']])"
    by (simp add: execute_select_def select_filter_def select_sort_def select_project_def
        list_sort_def getitem_def compare_row_def)
  have ne: "''k'' \<noteq> []" by simp
  from select_order_by_stable_sorted [OF run ne] have "sorted (map (\<lambda>r. the (r ''k''))
        [[''n'' \<mapsto> ''c'', ''k'' \<mapsto> ''1''], [''n'' \<mapsto> ''a'', ''k'' \<mapsto> ''1''],
         [''n'' \<mapsto> ''b'', ''k'' \<mapsto> ''2'']])"
    by simp
  with run show ?thesis by (rule conjI)
qed

subsection \<open>C8: the scope of UPDATE\<close>

text \<open>
  C8: after an UPDATE that executes successfully the table has as many rows as before,
  and row by row: the predicate returned a truth value for the row; if the row satisfies
  the predicate, or there is no predicate, then every assigned column has its literal
  value in the new row, whether or not the old row had the column, and every other
  column is as in the old row; if the row does not satisfy the predicate, the new row is
  the old row. The items of \<^verbatim>\<open>assignments\<close> are those of a dict, so their keys are
  distinct.
\<close>

theorem update_scope:
  assumes "execute_update tables (UpdateSQL opn t items w wl) = (tables', Inr ())"
    and "distinct (map fst items)"
  shows "\<exists>tbl tbl'.
           tables t = Some tbl \<and> tables' = tables(t \<mapsto> tbl') \<and> length tbl' = length tbl
         \<and> (\<forall>i<length tbl.
               (wl = None \<or> (\<exists>p b. wl = Some p \<and> p (tbl ! i) = Inr b))
             \<and> (wl = None \<or> (\<exists>p. wl = Some p \<and> p (tbl ! i) = Inr True) \<longrightarrow>
                  (\<forall>(c, v)\<in>set items. (tbl' ! i) c = Some v)
                \<and> (\<forall>c. c \<notin> fst ` set items \<longrightarrow> (tbl' ! i) c = (tbl ! i) c))
             \<and> ((\<exists>p. wl = Some p \<and> p (tbl ! i) = Inr False) \<longrightarrow> tbl' ! i = tbl ! i))"
proof -
  from assms(1) obtain tbl tbl' where tbl: "tables t = Some tbl"
    and run: "update_rows wl items tbl = (tbl', Inr ())"
    and tables': "tables' = tables(t \<mapsto> tbl')"
    by (auto simp: execute_update_def split: option.splits if_splits prod.splits)
  let ?sat = "\<lambda>r. case wl of None \<Rightarrow> True | Some p \<Rightarrow> p r = Inr True"
  from update_rows_Inr [OF run]
  have tbl'_eq: "tbl' = map (\<lambda>r. if ?sat r then dict_of_items items r else r) tbl"
    and total: "\<forall>r\<in>set tbl. \<forall>p. wl = Some p \<longrightarrow> (\<exists>b. p r = Inr b)"
    by simp_all
  have len: "length tbl' = length tbl" by (simp add: tbl'_eq)
  have row: "(wl = None \<or> (\<exists>p b. wl = Some p \<and> p (tbl ! i) = Inr b))
             \<and> (wl = None \<or> (\<exists>p. wl = Some p \<and> p (tbl ! i) = Inr True) \<longrightarrow>
                  (\<forall>(c, v)\<in>set items. (tbl' ! i) c = Some v)
                \<and> (\<forall>c. c \<notin> fst ` set items \<longrightarrow> (tbl' ! i) c = (tbl ! i) c))
             \<and> ((\<exists>p. wl = Some p \<and> p (tbl ! i) = Inr False) \<longrightarrow> tbl' ! i = tbl ! i)"
    if i: "i < length tbl" for i
  proof -
    have nth: "tbl' ! i = (if ?sat (tbl ! i) then dict_of_items items (tbl ! i) else tbl ! i)"
      using i by (simp add: tbl'_eq)
    have 1: "wl = None \<or> (\<exists>p b. wl = Some p \<and> p (tbl ! i) = Inr b)"
      using total i by (cases wl) auto
    have 2: "(\<forall>(c, v)\<in>set items. (tbl' ! i) c = Some v)
           \<and> (\<forall>c. c \<notin> fst ` set items \<longrightarrow> (tbl' ! i) c = (tbl ! i) c)"
      if "wl = None \<or> (\<exists>p. wl = Some p \<and> p (tbl ! i) = Inr True)"
    proof -
      from that have "?sat (tbl ! i)" by auto
      with nth have "tbl' ! i = dict_of_items items (tbl ! i)" by simp
      then show ?thesis
        using assms(2) by (auto simp: dict_of_items_distinct dict_of_items_notin)
    qed
    have 3: "tbl' ! i = tbl ! i" if "\<exists>p. wl = Some p \<and> p (tbl ! i) = Inr False"
      using that nth by auto
    from 1 2 3 show ?thesis by blast
  qed
  from tbl tables' len row show ?thesis by blast
qed

theorem update_scope_witness:
  "execute_update
       [''users'' \<mapsto> [[''id'' \<mapsto> ''1'', ''age'' \<mapsto> ''30''], [''id'' \<mapsto> ''2'']]]
       (UpdateSQL ''UPDATE'' ''users'' [(''age'', ''40'')] (Some ''id=1'')
          (Some (compare_row (\<lambda>v r. v = r) ''id'' ''1'')))
     = ([''users'' \<mapsto> [[''id'' \<mapsto> ''1'', ''age'' \<mapsto> ''40''], [''id'' \<mapsto> ''2'']]], Inr ())
   \<and> distinct (map fst [(''age'', ''40'')])
   \<and> (\<exists>tbl'. [''users'' \<mapsto> [[''id'' \<mapsto> ''1'', ''age'' \<mapsto> ''40''], [''id'' \<mapsto> ''2'']]]
               = [''users'' \<mapsto> [[''id'' \<mapsto> ''1'', ''age'' \<mapsto> ''30''], [''id'' \<mapsto> ''2'']]](''users'' \<mapsto> tbl')
            \<and> (tbl' ! 0) ''age'' = Some ''40'' \<and> tbl' ! 1 = [''id'' \<mapsto> ''2''])"
proof -
  let ?p = "compare_row (\<lambda>v r. v = r) ''id'' ''1''"
  have run: "execute_update
       [''users'' \<mapsto> [[''id'' \<mapsto> ''1'', ''age'' \<mapsto> ''30''], [''id'' \<mapsto> ''2'']]]
       (UpdateSQL ''UPDATE'' ''users'' [(''age'', ''40'')] (Some ''id=1'') (Some ?p))
     = ([''users'' \<mapsto> [[''id'' \<mapsto> ''1'', ''age'' \<mapsto> ''40''], [''id'' \<mapsto> ''2'']]], Inr ())"
    by (simp add: execute_update_def compare_row_def getitem_def fun_upd_twist)
  have dist: "distinct (map fst [(''age'', ''40'')])" by simp
  have sat: "?p [''id'' \<mapsto> ''1'', ''age'' \<mapsto> ''30''] = Inr True"
    and unsat: "?p [''id'' \<mapsto> ''2''] = Inr False"
    by (simp_all add: compare_row_def getitem_def)
  from update_scope [OF run dist] obtain tbl tbl' where
    tbl: "[''users'' \<mapsto> [[''id'' \<mapsto> ''1'', ''age'' \<mapsto> ''30''], [''id'' \<mapsto> ''2'']]] ''users'' = Some tbl"
    and st: "[''users'' \<mapsto> [[''id'' \<mapsto> ''1'', ''age'' \<mapsto> ''40''], [''id'' \<mapsto> ''2'']]]
               = [''users'' \<mapsto> [[''id'' \<mapsto> ''1'', ''age'' \<mapsto> ''30''], [''id'' \<mapsto> ''2'']]](''users'' \<mapsto> tbl')"
    and rows: "\<forall>i<length tbl.
               (Some ?p = None \<or> (\<exists>p. Some ?p = Some p \<and> p (tbl ! i) = Inr True) \<longrightarrow>
                  (\<forall>(c, v)\<in>set [(''age'', ''40'')]. (tbl' ! i) c = Some v))
             \<and> ((\<exists>p. Some ?p = Some p \<and> p (tbl ! i) = Inr False) \<longrightarrow> tbl' ! i = tbl ! i)"
    by blast
  from tbl have tbl_eq: "tbl = [[''id'' \<mapsto> ''1'', ''age'' \<mapsto> ''30''], [''id'' \<mapsto> ''2'']]"
    by simp
  from rows [rule_format, of 0] sat have "(tbl' ! 0) ''age'' = Some ''40''"
    by (simp add: tbl_eq)
  moreover from rows [rule_format, of 1] unsat have "tbl' ! 1 = [''id'' \<mapsto> ''2'']"
    by (simp add: tbl_eq)
  ultimately show ?thesis using run dist st by blast
qed

subsection \<open>C9: evaluating a compiled predicate\<close>

text \<open>
  C9: a predicate compiled from a condition has a column, an operator and a literal
  taken from the match. On a row without the column it raises \<^verbatim>\<open>KeyError\<close> for that
  column instead of returning a truth value; on a row with the column it returns the
  comparison of the stored string with the literal in the order of strings. In the
  witness the string \<open>9\<close> is greater than the string \<open>30\<close>.
\<close>

theorem predicate_evaluation:
  assumes "parse_where condition = Inr p"
  shows "\<exists>m left opr right.
           re_match condition_regex condition = Some m
         \<and> left = group m ''left'' \<and> opr = group m ''operator'' \<and> right = strip (group m ''right'')
         \<and> opr \<in> {''='', ''!='', ''<'', ''<='', ''>'', ''>=''}
         \<and> (\<forall>row. row left = None \<longrightarrow> p row = Inl (KeyError left))
         \<and> (\<forall>row v. row left = Some v \<longrightarrow>
               p row = Inr (if opr = ''='' then v = right
                            else if opr = ''!='' then v \<noteq> right
                            else if opr = ''<'' then v < right
                            else if opr = ''<='' then v \<le> right
                            else if opr = ''>'' then v > right
                            else v \<ge> right))"
proof -
  from assms obtain m where m: "re_match condition_regex condition = Some m"
    by (auto simp: parse_where_def split: option.splits)
  let ?left = "group m ''left''" and ?opr = "group m ''operator''"
  let ?right = "strip (group m ''right'')"
  from assms m have opr: "?opr \<in> {''='', ''!='', ''<'', ''<='', ''>'', ''>=''}"
    by (auto simp: parse_where_def Let_def split: if_splits)
  from assms m have p: "p = compare_row
      (if ?opr = ''='' then (\<lambda>v r. v = r) else if ?opr = ''!='' then (\<lambda>v r. v \<noteq> r)
       else if ?opr = ''<'' then (\<lambda>v r. v < r) else if ?opr = ''<='' then (\<lambda>v r. v \<le> r)
       else if ?opr = ''>'' then (\<lambda>v r. v > r) else (\<lambda>v r. v \<ge> r)) ?left ?right"
    by (auto simp: parse_where_def Let_def split: if_splits)
  have "\<forall>row. row ?left = None \<longrightarrow> p row = Inl (KeyError ?left)"
    by (simp add: p compare_row_def getitem_def)
  moreover have "\<forall>row v. row ?left = Some v \<longrightarrow>
               p row = Inr (if ?opr = ''='' then v = ?right
                            else if ?opr = ''!='' then v \<noteq> ?right
                            else if ?opr = ''<'' then v < ?right
                            else if ?opr = ''<='' then v \<le> ?right
                            else if ?opr = ''>'' then v > ?right
                            else v \<ge> ?right)"
    by (simp add: p compare_row_def getitem_def)
  ultimately show ?thesis using m opr by blast
qed

theorem predicate_evaluation_witness:
  "parse_where ''age > 30'' = Inr (compare_row (\<lambda>v r. v > r) ''age'' ''30'')
   \<and> compare_row (\<lambda>v r. v > r) ''age'' ''30'' Map.empty = Inl (KeyError ''age'')
   \<and> compare_row (\<lambda>v r. v > r) ''age'' ''30'' [''age'' \<mapsto> ''9''] = Inr True"
proof -
  let ?p = "compare_row (\<lambda>v r. v > r) ''age'' ''30''"
  have run: "parse_where ''age > 30'' = Inr ?p"
    by (simp add: parse_where_def re_match_def condition_regex_def is_word_def is_space_def
        is_dot_def group_def strip_def)
  have m: "re_match condition_regex ''age > 30''
         = Some [(''right'', ''30''), (''operator'', ''>''), (''left'', ''age'')]"
    by (simp add: re_match_def condition_regex_def is_word_def is_space_def is_dot_def)
  from predicate_evaluation [OF run] m
  have absent: "\<forall>row. row ''age'' = None \<longrightarrow> ?p row = Inl (KeyError ''age'')"
    and present: "\<forall>row v. row ''age'' = Some v \<longrightarrow> ?p row = Inr (v > ''30'')"
    by (simp_all add: group_def strip_def is_space_def)
  from absent have "?p Map.empty = Inl (KeyError ''age'')" by simp
  moreover from present have "?p [''age'' \<mapsto> ''9''] = Inr (''9'' > ''30'')" by simp
  then have "?p [''age'' \<mapsto> ''9''] = Inr True" by simp
  ultimately show ?thesis using run by blast
qed

subsection \<open>C10: the declared columns of a table\<close>

text \<open>
  C10: \<^verbatim>\<open>create_table\<close> does not look at the column list. For any two column lists
  the store it leaves and its outcome are the same, and so is what any later statement
  does on it; for a name that is not in the store, the new store maps the name to the
  empty list of rows and is the old store elsewhere, and nothing else is kept.
\<close>

theorem create_table_ignores_columns:
  "create_table tables name c1 = create_table tables name c2
   \<and> execute_parsed (fst (create_table tables name c1)) stmt
       = execute_parsed (fst (create_table tables name c2)) stmt
   \<and> (tables name = None \<longrightarrow> create_table tables name c1 = (tables(name \<mapsto> []), Inr ()))"
  by (simp add: create_table_def)

theorem create_table_ignores_columns_witness:
  "create_table Map.empty ''users'' [''id'', ''name'', ''age''] = ([''users'' \<mapsto> []], Inr ())
   \<and> create_table Map.empty ''users'' [] = ([''users'' \<mapsto> []], Inr ())
   \<and> execute_parsed (fst (create_table Map.empty ''users'' []))
         (InsertSQL ''INSERT'' ''users'' [''id''] [''1''])
       = ([''users'' \<mapsto> [[''id'' \<mapsto> ''1'']]], Inr None)"
  using create_table_ignores_columns [where tables = Map.empty and name = "''users''"
      and ?c1.0 = "[''id'', ''name'', ''age'']" and ?c2.0 = "[]"
      and stmt = "InsertSQL ''INSERT'' ''users'' [''id''] [''1'']"]
  by (simp add: execute_insert_def create_table_def)

end
